theory Spec2Isabelle
  imports Complex_Main "HOL-Library.Log_Nat"
begin

section \<open>Scalars: IEEE 754 binary64\<close>

text \<open>
  \<^verbatim>\<open>src/algorithm/Power.h\<close> computes with \<^verbatim>\<open>double\<close>. The model is the binary64
  format with the default rounding, to nearest with ties to even: every \<open>+\<close>, \<open>*\<close> and
  \<open>/\<close> of the source is one correctly rounded operation, with overflow to an infinity,
  gradual underflow, the two zeros and their signs. The only abstraction is that there
  is one NaN (no payloads, no signalling).

  \<open>Finite s e m\<close> is the number \<open>(-1)\<^sup>s * m * 2\<^sup>e\<close>. It is a binary64 value when it is
  \<open>valid\<close>: a normal number has \<open>2\<^sup>5\<^sup>2 \<le> m < 2\<^sup>5\<^sup>3\<close> and \<open>- 1074 \<le> e \<le> 971\<close>, a
  subnormal number or a zero has \<open>m < 2\<^sup>5\<^sup>2\<close> and \<open>e = - 1074\<close>.
\<close>

datatype binary64 = Finite bool int int | Infinity bool | NaN

definition valid :: "binary64 \<Rightarrow> bool" where
  "valid x =
     (case x of
        Finite s e m \<Rightarrow>
          0 \<le> m \<and> m < 2 ^ 53 \<and> - 1074 \<le> e \<and> e \<le> 971 \<and> (2 ^ 52 \<le> m \<or> e = - 1074)
      | Infinity s \<Rightarrow> True
      | NaN \<Rightarrow> True)"

text \<open>
  \<open>rne M k sticky\<close> drops the last \<open>k\<close> bits of \<open>M\<close> and rounds to nearest, ties to
  even; \<open>sticky\<close> says that the exact value is above \<open>M\<close> (a nonzero remainder of a
  division), so that a half is not a tie. \<open>round_double s M E sticky\<close> is the binary64 value
  nearest to \<open>(-1)\<^sup>s * M * 2\<^sup>E\<close>: the exponent of the result is the one that leaves 53
  bits of \<open>M\<close>, and not below \<open>- 1074\<close>; a significand rounded up to \<open>2\<^sup>5\<^sup>3\<close> moves to the
  next exponent; an exponent above 971 is an overflow.
\<close>

definition rne :: "int \<Rightarrow> nat \<Rightarrow> bool \<Rightarrow> int" where
  "rne M k sticky =
     (let q = M div 2 ^ k; r = M mod 2 ^ k; half = 2 ^ (k - 1)
      in if k = 0 then M
         else if half < r \<or> (r = half \<and> sticky) then q + 1
         else if r = half \<and> odd q then q + 1
         else q)"

definition target_exponent :: "int \<Rightarrow> int \<Rightarrow> int" where
  "target_exponent M E = max (E + bitlen M - 53) (- 1074)"

definition rounded_significand :: "int \<Rightarrow> int \<Rightarrow> bool \<Rightarrow> int" where
  "rounded_significand M E sticky =
     (if target_exponent M E \<le> E then M * 2 ^ nat (E - target_exponent M E)
      else rne M (nat (target_exponent M E - E)) sticky)"

definition pack :: "bool \<Rightarrow> int \<Rightarrow> int \<Rightarrow> binary64" where
  "pack s E q =
     (if q = 2 ^ 53 then (if 971 < E + 1 then Infinity s else Finite s (E + 1) (2 ^ 52))
      else if 971 < E then Infinity s else Finite s E q)"

definition round_double :: "bool \<Rightarrow> int \<Rightarrow> int \<Rightarrow> bool \<Rightarrow> binary64" where
  "round_double s M E sticky =
     (if M \<le> 0 then Finite s (- 1074) 0
      else pack s (target_exponent M E) (rounded_significand M E sticky))"

text \<open>
  Adding a zero gives the other operand, and two zeros give \<open>- 0\<close> only when both are
  negative. Otherwise addition is exact on the integers that the two operands are at their
  smaller exponent, then rounded; operands that cancel give \<open>+ 0\<close>.
  Multiplication and division round the exact product and quotient; the sign is the
  exclusive or of the signs. The quotient is computed with at least 56 bits and the sticky
  bit.
\<close>

fun fadd :: "binary64 \<Rightarrow> binary64 \<Rightarrow> binary64" where
  "fadd (Finite s1 e1 m1) (Finite s2 e2 m2) =
     (if m1 = 0 then (if m2 = 0 then Finite (s1 \<and> s2) (- 1074) 0 else Finite s2 e2 m2)
      else if m2 = 0 then Finite s1 e1 m1
      else let e = min e1 e2;
               a = (if s1 then - m1 else m1) * 2 ^ nat (e1 - e);
               b = (if s2 then - m2 else m2) * 2 ^ nat (e2 - e);
               c = a + b
           in if c = 0 then Finite False (- 1074) 0
              else round_double (c < 0) \<bar>c\<bar> e False)"
| "fadd (Finite s1 e1 m1) (Infinity t) = Infinity t"
| "fadd (Infinity s) (Finite s2 e2 m2) = Infinity s"
| "fadd (Infinity s) (Infinity t) = (if s = t then Infinity s else NaN)"
| "fadd NaN y = NaN"
| "fadd (Finite s1 e1 m1) NaN = NaN"
| "fadd (Infinity s) NaN = NaN"

fun fmul :: "binary64 \<Rightarrow> binary64 \<Rightarrow> binary64" where
  "fmul (Finite s1 e1 m1) (Finite s2 e2 m2) = round_double (s1 \<noteq> s2) (m1 * m2) (e1 + e2) False"
| "fmul (Finite s1 e1 m1) (Infinity t) = (if m1 = 0 then NaN else Infinity (s1 \<noteq> t))"
| "fmul (Infinity s) (Finite s2 e2 m2) = (if m2 = 0 then NaN else Infinity (s \<noteq> s2))"
| "fmul (Infinity s) (Infinity t) = Infinity (s \<noteq> t)"
| "fmul NaN y = NaN"
| "fmul (Finite s1 e1 m1) NaN = NaN"
| "fmul (Infinity s) NaN = NaN"

fun fdiv :: "binary64 \<Rightarrow> binary64 \<Rightarrow> binary64" where
  "fdiv (Finite s1 e1 m1) (Finite s2 e2 m2) =
     (if m2 = 0 then (if m1 = 0 then NaN else Infinity (s1 \<noteq> s2))
      else if m1 = 0 then Finite (s1 \<noteq> s2) (- 1074) 0
      else let K = 55 + bitlen m2;
               N = m1 * 2 ^ nat K
           in round_double (s1 \<noteq> s2) (N div m2) (e1 - e2 - K) (N mod m2 \<noteq> 0))"
| "fdiv (Finite s1 e1 m1) (Infinity t) = Finite (s1 \<noteq> t) (- 1074) 0"
| "fdiv (Infinity s) (Finite s2 e2 m2) = Infinity (s \<noteq> s2)"
| "fdiv (Infinity s) (Infinity t) = NaN"
| "fdiv NaN y = NaN"
| "fdiv (Finite s1 e1 m1) NaN = NaN"
| "fdiv (Infinity s) NaN = NaN"

text \<open>\<^verbatim>\<open>static_cast<double>(n)\<close> for a \<^verbatim>\<open>std::size_t\<close> \<open>n\<close>: the nearest binary64 value.\<close>

definition of_size :: "nat \<Rightarrow> binary64" where
  "of_size n = round_double False (int n) 0 False"

subsection \<open>The results of the operations are binary64 values\<close>

lemma int_div_less:
  fixes a b c :: int
  assumes "0 < b" "a < c * b"
  shows "a div b < c"
proof -
  have "b * (a div b) = a - a mod b"
    by (simp add: minus_mod_eq_mult_div)
  moreover have "0 \<le> a mod b"
    using assms(1) by simp
  ultimately have "b * (a div b) \<le> a"
    by simp
  with assms(2) have "b * (a div b) < b * c"
    by (simp add: mult.commute)
  with assms(1) show ?thesis
    by (simp add: mult_less_cancel_left_pos)
qed

lemma int_le_div:
  fixes a b c :: int
  assumes "0 < b" "c * b \<le> a"
  shows "c \<le> a div b"
  using assms zdiv_mono1 by fastforce

lemma rne_bounds: "M div 2 ^ k \<le> rne M k st \<and> rne M k st \<le> M div 2 ^ k + 1"
  by (simp add: rne_def Let_def)

lemma significand_bounds:
  assumes "0 < M"
  shows "0 \<le> rounded_significand M E st \<and> rounded_significand M E st \<le> 2 ^ 53 \<and>
    (- 1074 < target_exponent M E \<longrightarrow> 2 ^ 52 \<le> rounded_significand M E st) \<and>
    (- 1074 \<le> E \<longrightarrow> 1 \<le> rounded_significand M E st)"
proof -
  define b where "b = nat (bitlen M)"
  have "bitlen M \<noteq> 0"
    using assms by (simp add: bitlen_eq_zero_iff)
  with bitlen_nonneg [of M] have b: "bitlen M = int b" "1 \<le> b"
    by (simp_all add: b_def)
  have "int b - 1 = int (b - 1)"
    using b(2) by simp
  then have "nat (bitlen M - 1) = b - 1" "nat (bitlen M) = b"
    by (simp_all only: b(1) nat_int)
  with bitlen_bounds [OF assms] have up: "M < 2 ^ b" and low: "2 ^ (b - 1) \<le> M"
    by simp_all
  define E' where "E' = target_exponent M E"
  have E': "E' = max (E + int b - 53) (- 1074)"
    by (simp add: E'_def target_exponent_def b)
  show ?thesis
  proof (cases "E' \<le> E")
    case True
    define d where "d = nat (E - E')"
    have d: "int d = E - E'"
      using True by (simp add: d_def)
    have q: "rounded_significand M E st = M * 2 ^ d"
      using True by (simp add: rounded_significand_def E'_def [symmetric] d_def)
    have "int b + int d \<le> 53"
      using E' d by linarith
    then have bd: "b + d \<le> 53" by linarith
    have "M * 2 ^ d < 2 ^ b * 2 ^ d"
      using up by simp
    also have "\<dots> = 2 ^ (b + d)"
      by (simp add: power_add)
    also have "\<dots> \<le> (2::int) ^ 53"
      using bd by (intro power_increasing) simp_all
    finally have hi: "M * 2 ^ d < 2 ^ 53" .
    have "1 * 1 \<le> M * 2 ^ d"
      using assms by (intro mult_mono) simp_all
    then have one: "1 \<le> M * 2 ^ d"
      by simp
    have normal: "2 ^ 52 \<le> M * 2 ^ d" if "- 1074 < E'"
    proof -
      from that E' d have "int d = 53 - int b" by linarith
      with b(2) have "(b - 1) + d = 52" by linarith
      then have "(2::int) ^ 52 = 2 ^ (b - 1) * 2 ^ d"
        by (simp add: power_add [symmetric])
      also have "\<dots> \<le> M * 2 ^ d"
        using low by simp
      finally show ?thesis .
    qed
    from hi one normal show ?thesis
      by (simp add: q E'_def [symmetric])
  next
    case False
    define k where "k = nat (E' - E)"
    have k: "int k = E' - E" "1 \<le> k"
      using False by (simp_all add: k_def)
    have q: "rounded_significand M E st = rne M k st"
      using False by (simp add: rounded_significand_def E'_def [symmetric] k_def)
    have "int b \<le> 53 + int k"
      using E' k by linarith
    then have bk: "b \<le> 53 + k" by linarith
    have "M < 2 ^ b" by (rule up)
    also have "\<dots> \<le> (2::int) ^ (53 + k)"
      using bk by (intro power_increasing) simp_all
    finally have "M < 2 ^ 53 * 2 ^ k"
      by (simp add: power_add)
    then have "M div 2 ^ k < 2 ^ 53"
      by (intro int_div_less) simp_all
    with rne_bounds [of M k st] have hi: "rne M k st \<le> 2 ^ 53"
      by linarith
    have "0 \<le> M div 2 ^ k"
      using assms by (simp add: pos_imp_zdiv_nonneg_iff)
    with rne_bounds [of M k st] have lo: "0 \<le> rne M k st"
      by linarith
    have normal: "2 ^ 52 \<le> rne M k st" if "- 1074 < E'"
    proof -
      from that E' k have "int b = 53 + int k" by linarith
      then have "b - 1 = 52 + k" by linarith
      with low have "2 ^ 52 * 2 ^ k \<le> M"
        by (simp add: power_add)
      then have "2 ^ 52 \<le> M div 2 ^ k"
        by (intro int_le_div) simp_all
      with rne_bounds [of M k st] show ?thesis by linarith
    qed
    have "- 1074 < E'" if "- 1074 \<le> E"
      using that False by linarith
    with normal have one: "1 \<le> rne M k st" if "- 1074 \<le> E"
      using that by fastforce
    from hi lo normal one show ?thesis
      by (simp add: q E'_def [symmetric])
  qed
qed

lemma valid_pack:
  assumes "0 \<le> q" "q \<le> 2 ^ 53" "- 1074 \<le> E" "- 1074 < E \<longrightarrow> 2 ^ 52 \<le> q"
  shows "valid (pack s E q)"
  using assms by (auto simp: pack_def valid_def)

lemma valid_round_double: "valid (round_double s M E st)"
proof (cases "M \<le> 0")
  case True
  then show ?thesis by (simp add: round_double_def valid_def)
next
  case False
  then have M: "0 < M" by simp
  have "- 1074 \<le> target_exponent M E"
    by (simp add: target_exponent_def)
  with significand_bounds [OF M, of E st] False show ?thesis
    by (simp add: round_double_def valid_pack)
qed

lemma bitlen_one: "bitlen 1 = 1"
  by (simp add: compute_bitlen)

lemmas bitlen_numeral = compute_bitlen [of "numeral n" for n]


lemma round_double_nonzero:
  assumes "0 < M" "- 1074 \<le> E"
  shows "round_double s M E st \<noteq> Finite t e 0"
proof -
  from significand_bounds [OF assms(1), of E st] assms(2)
  have "1 \<le> rounded_significand M E st" by simp
  with assms(1) show ?thesis
    by (auto simp: round_double_def pack_def)
qed

lemma bitlen_normal:
  assumes "2 ^ 52 \<le> m" "m < 2 ^ 53"
  shows "bitlen m = 53"
proof -
  have "bitlen m \<le> 53"
    using assms(2) by (simp add: bitlen_le_iff_power)
  moreover have "53 \<le> bitlen m"
    using assms(1) by (simp add: bitlen_ge_iff_power)
  ultimately show ?thesis by simp
qed

lemma round_double_exact:
  assumes "valid (Finite s e m)" "0 < m"
  shows "round_double s (m * 2 ^ k) (e - int k) False = Finite s e m"
proof -
  from assms have v: "m < 2 ^ 53" "- 1074 \<le> e" "e \<le> 971" "2 ^ 52 \<le> m \<or> e = - 1074"
    by (simp_all add: valid_def)
  have pos: "0 < m * 2 ^ k"
    using assms(2) by simp
  have len: "bitlen (m * 2 ^ k) = bitlen m + int k"
    using assms(2) by simp
  have target: "target_exponent (m * 2 ^ k) (e - int k) = e"
  proof (cases "2 ^ 52 \<le> m")
    case True
    from True v(1) have "bitlen m = 53" by (rule bitlen_normal)
    with v(2) show ?thesis
      by (simp add: target_exponent_def len)
  next
    case False
    then have "bitlen m \<le> 52"
      by (simp add: bitlen_le_iff_power)
    with False v(4) show ?thesis
      by (simp add: target_exponent_def len)
  qed
  have "rounded_significand (m * 2 ^ k) (e - int k) False = m"
  proof (cases "k = 0")
    case True
    with target have "target_exponent m e = e" by simp
    with True show ?thesis
      by (simp add: rounded_significand_def)
  next
    case False
    then have "rne (m * 2 ^ k) k False = m"
      by (simp add: rne_def Let_def)
    moreover have "rounded_significand (m * 2 ^ k) (e - int k) False =
        rne (m * 2 ^ k) (nat (e - (e - int k))) False"
      unfolding rounded_significand_def target using False by simp
    ultimately show ?thesis by simp
  qed
  with pos v show ?thesis
    by (simp add: round_double_def target pack_def)
qed

lemma valid_fadd: "valid (fadd x y)"
  if "valid x" "valid y"
  using that by (cases x; cases y) (simp_all add: Let_def valid_round_double, simp_all add: valid_def)

lemma valid_fmul: "valid (fmul x y)"
  by (cases x; cases y) (simp_all add: valid_round_double, simp_all add: valid_def)

lemma valid_fdiv: "valid (fdiv x y)"
  by (cases x; cases y) (simp_all add: Let_def valid_round_double, simp_all add: valid_def)

lemma valid_of_size: "valid (of_size n)"
  by (simp add: of_size_def valid_round_double)

lemma fadd_commute: "fadd x y = fadd y x"
  by (cases x; cases y) (auto simp: Let_def min.commute add.commute)

lemma zero_fadd:
  assumes "valid x" "x \<noteq> Finite True (- 1074) 0"
  shows "fadd (Finite False (- 1074) 0) x = x"
proof (cases x)
  case (Finite s e m)
  with assms(1) have "2 ^ 52 \<le> m \<or> e = - 1074"
    by (simp add: valid_def)
  with assms(2) Finite show ?thesis by auto
qed simp_all

lemma fdiv_one:
  assumes "valid x"
  shows "fdiv x (Finite False (- 52) 4503599627370496) = x"
proof (cases x)
  case (Finite s e m)
  with assms have v: "0 \<le> m" "- 1074 \<le> e" "2 ^ 52 \<le> m \<or> e = - 1074"
    by (simp_all add: valid_def)
  show ?thesis
  proof (cases "m = 0")
    case True
    with v(3) Finite show ?thesis by auto
  next
    case False
    with v(1) have m: "0 < m" by simp
    have len: "bitlen 4503599627370496 = 53"
      by (simp add: bitlen_numeral bitlen_one)
    have "m * 2 ^ 108 = (m * 2 ^ 56) * 4503599627370496"
      by simp
    then have split: "m * 2 ^ 108 div 4503599627370496 = m * 2 ^ 56"
      "m * 2 ^ 108 mod 4503599627370496 = 0"
      by (simp_all only: nonzero_mult_div_cancel_right mod_mult_self2_is_0)
    have "fdiv x (Finite False (- 52) 4503599627370496) =
        round_double s (m * 2 ^ 56) (e - int 56) False"
      using False by (simp add: Finite len Let_def split mult.commute)
    also have "\<dots> = Finite s e m"
      using assms m unfolding Finite by (rule round_double_exact)
    finally show ?thesis by (simp add: Finite)
  qed
qed simp_all

lemma fadd_not_neg_zero:
  assumes "valid x" "valid y" "x \<noteq> Finite True (- 1074) 0"
  shows "fadd x y \<noteq> Finite True (- 1074) 0"
proof (cases x)
  case x: (Finite s1 e1 m1)
  show ?thesis
  proof (cases y)
    case y: (Finite s2 e2 m2)
    from assms x y have v: "- 1074 \<le> e1" "- 1074 \<le> e2" "2 ^ 52 \<le> m1 \<or> e1 = - 1074"
      by (simp_all add: valid_def)
    define c where "c = (if s1 then - m1 else m1) * 2 ^ nat (e1 - min e1 e2) +
      (if s2 then - m2 else m2) * 2 ^ nat (e2 - min e1 e2)"
    have round: "round_double (c < 0) \<bar>c\<bar> (min e1 e2) False \<noteq> Finite True (- 1074) 0"
      if "c \<noteq> 0"
    proof -
      from that have "0 < \<bar>c\<bar>" by simp
      moreover have "- 1074 \<le> min e1 e2" using v by simp
      ultimately show ?thesis by (rule round_double_nonzero)
    qed
    show ?thesis
    proof (cases "m1 = 0")
      case True
      with v(3) assms(3) x have "\<not> s1" by auto
      with True show ?thesis by (simp add: x y)
    next
      case False
      with assms(3) round show ?thesis
        by (simp add: x y Let_def c_def [symmetric])
    qed
  qed (simp_all add: x)
next
  case (Infinity s)
  then show ?thesis by (cases y) simp_all
next
  case NaN
  then show ?thesis by simp
qed

subsection \<open>The type\<close>

typedef double = "{x. valid x}"
  by (rule exI [of _ NaN]) (simp add: valid_def)

setup_lifting type_definition_double

instantiation double :: "{zero, one, plus, times, divide}"
begin

lift_definition zero_double :: double is "Finite False (- 1074) 0"
  by (simp add: valid_def)

lift_definition one_double :: double is "Finite False (- 52) 4503599627370496"
  by (simp add: valid_def)

lift_definition plus_double :: "double \<Rightarrow> double \<Rightarrow> double" is fadd
  by (rule valid_fadd)

lift_definition times_double :: "double \<Rightarrow> double \<Rightarrow> double" is fmul
  by (rule valid_fmul)

lift_definition divide_double :: "double \<Rightarrow> double \<Rightarrow> double" is fdiv
  by (rule valid_fdiv)

instance ..

end

text \<open>
  Other values: \<open>0.5\<close>, the negative zero, the infinities, NaN, the value nearest to
  \<open>(-1)\<^sup>s * m * 2\<^sup>e\<close>, and the conversion from \<^verbatim>\<open>std::size_t\<close>.
\<close>

lift_definition half :: double is "Finite False (- 53) 4503599627370496"
  by (simp add: valid_def)

lift_definition neg_zero :: double is "Finite True (- 1074) 0"
  by (simp add: valid_def)

lift_definition infinity :: "bool \<Rightarrow> double" is Infinity
  by (simp add: valid_def)

lift_definition nan :: double is NaN
  by (simp add: valid_def)

lift_definition double_lit :: "bool \<Rightarrow> int \<Rightarrow> int \<Rightarrow> double" is
  "\<lambda>s e m. round_double s m e False"
  by (rule valid_round_double)

lift_definition double_of_size :: "nat \<Rightarrow> double" is of_size
  by (rule valid_of_size)

lift_definition is_finite :: "double \<Rightarrow> bool" is
  "\<lambda>x. case x of Finite s e m \<Rightarrow> True | Infinity s \<Rightarrow> False | NaN \<Rightarrow> False" .

lift_definition is_zero :: "double \<Rightarrow> bool" is
  "\<lambda>x. case x of Finite s e m \<Rightarrow> m = 0 | Infinity s \<Rightarrow> False | NaN \<Rightarrow> False" .

text \<open>The equations that evaluate the arithmetic on numerals.\<close>

lemmas double_eval =
  plus_double.rep_eq times_double.rep_eq divide_double.rep_eq zero_double.rep_eq
  one_double.rep_eq half.rep_eq neg_zero.rep_eq infinity.rep_eq nan.rep_eq double_lit.rep_eq
  double_of_size.rep_eq is_finite.rep_eq is_zero.rep_eq of_size_def round_double_def
  target_exponent_def rounded_significand_def pack_def rne_def bitlen_numeral bitlen_one

subsection \<open>Laws of the arithmetic\<close>

lemma double_add_commute: "x + y = y + x" for x y :: double
  by transfer (rule fadd_commute)

lemma double_zero_add: "x \<noteq> neg_zero \<Longrightarrow> 0 + x = x" for x :: double
  by transfer (rule zero_fadd)

lemma double_zero_add_neg_zero: "0 + neg_zero = (0::double)"
  by transfer simp

lemma double_div_one: "x div 1 = x" for x :: double
  by transfer (rule fdiv_one)

lemma double_add_not_neg_zero: "x \<noteq> neg_zero \<Longrightarrow> x + y \<noteq> neg_zero" for x y :: double
  by transfer (rule fadd_not_neg_zero)

lemma zero_not_neg_zero: "(0::double) \<noteq> neg_zero"
  by transfer simp

subsection \<open>Known results\<close>

text \<open>
  The operations on some inputs whose binary64 results are known: \<open>1 / 3\<close>, \<open>1 / 10\<close>,
  \<open>0.1 + 0.2\<close> (which is not \<open>0.3\<close>), \<open>10\<^sup>1\<^sup>6 + 1\<close> (a tie, rounded to even), the overflows
  of \<open>2\<^sup>1\<^sup>0\<^sup>2\<^sup>3 + 2\<^sup>1\<^sup>0\<^sup>2\<^sup>3\<close> and of the square of \<open>2\<^sup>5\<^sup>1\<^sup>2\<close>, the underflow of the square
  of two to the power \<open>- 538\<close>, the halving of the smallest positive number (a tie,
  rounded to zero) and one and a half times it, and the signs of zeros.
\<close>

lemma double_arithmetic_examples:
  "fdiv (Finite False (- 52) 4503599627370496) (Finite False (- 51) 6755399441055744) =
     Finite False (- 54) 6004799503160661"
  "fdiv (Finite False (- 52) 4503599627370496) (Finite False (- 49) 5629499534213120) =
     Finite False (- 56) 7205759403792794"
  "fadd (Finite False (- 56) 7205759403792794) (Finite False (- 55) 7205759403792794) =
     Finite False (- 54) 5404319552844596"
  "fadd (Finite False 1 5000000000000000) (Finite False (- 52) 4503599627370496) =
     Finite False 1 5000000000000000"
  "fadd (Finite False 971 4503599627370496) (Finite False 971 4503599627370496) =
     Infinity False"
  "fmul (Finite False 460 4503599627370496) (Finite False 460 4503599627370496) =
     Infinity False"
  "fmul (Finite False (- 590) 4503599627370496) (Finite False (- 590) 4503599627370496) =
     Finite False (- 1074) 0"
  "fdiv (Finite False (- 1074) 1) (Finite False (- 51) 4503599627370496) =
     Finite False (- 1074) 0"
  "fmul (Finite False (- 1074) 1) (Finite False (- 52) 6755399441055744) =
     Finite False (- 1074) 2"
  "fmul (Finite True (- 52) 4503599627370496) (Finite False (- 1074) 0) =
     Finite True (- 1074) 0"
  "fadd (Finite True (- 1074) 0) (Finite False (- 1074) 0) = Finite False (- 1074) 0"
  "fadd (Finite False (- 52) 4503599627370496) (Finite True (- 52) 4503599627370496) =
     Finite False (- 1074) 0"
  "fadd (Finite False 971 9007199254740991) (Finite False (- 52) 4503599627370496) =
     Finite False 971 9007199254740991"
  by (simp_all add: round_double_def target_exponent_def rounded_significand_def pack_def
      rne_def bitlen_numeral bitlen_one Let_def)

section \<open>Fixed-size vectors and matrices\<close>

text \<open>
  \<^verbatim>\<open>TParameter\<close> and \<^verbatim>\<open>TWeight\<close> are template parameters: a fixed-size column vector of
  dimension \<open>d\<close> and a fixed-size \<open>d \<times> d\<close> matrix of doubles. The dimension is the
  enumerated index type \<open>'n\<close>. Addition, scaling and division by a scalar work on each
  coefficient. A product that adds up coefficients (\<open>u\<^sup>T * v\<close>, a matrix times a vector)
  adds them in the order of the indices, from the first product on: with one coefficient
  nothing is added, with two the order does not matter, beyond that the order is the
  matrix library's and the index order stands for it.
\<close>

type_synonym 'n TParameter = "'n \<Rightarrow> double"
type_synonym 'n TWeight = "'n \<Rightarrow> 'n \<Rightarrow> double"

definition TParameter_Zero :: "'n TParameter" where
  "TParameter_Zero = (\<lambda>j. 0)"

definition TWeight_Zero :: "'n TWeight" where
  "TWeight_Zero = (\<lambda>j k. 0)"

definition TWeight_Identity :: "'n TWeight" where
  "TWeight_Identity = (\<lambda>j k. if j = k then 1 else 0)"

definition vec_add :: "'n TParameter \<Rightarrow> 'n TParameter \<Rightarrow> 'n TParameter" where
  "vec_add u v = (\<lambda>j. u j + v j)"

definition mat_add :: "'n TWeight \<Rightarrow> 'n TWeight \<Rightarrow> 'n TWeight" where
  "mat_add A B = (\<lambda>j k. A j k + B j k)"

definition vec_scale :: "'n TParameter \<Rightarrow> double \<Rightarrow> 'n TParameter" where
  "vec_scale v r = (\<lambda>j. v j * r)"

definition mat_scale :: "'n TWeight \<Rightarrow> double \<Rightarrow> 'n TWeight" where
  "mat_scale A r = (\<lambda>j k. A j k * r)"

definition vec_div :: "'n TParameter \<Rightarrow> double \<Rightarrow> 'n TParameter" where
  "vec_div v r = (\<lambda>j. v j div r)"

definition mat_div :: "'n TWeight \<Rightarrow> double \<Rightarrow> 'n TWeight" where
  "mat_div A r = (\<lambda>j k. A j k div r)"

text \<open>The sum of a list of coefficients, from the first one on.\<close>

definition redux :: "double list \<Rightarrow> double" where
  "redux xs = (case xs of [] \<Rightarrow> 0 | x # ys \<Rightarrow> foldl (+) x ys)"

text \<open>\<open>u\<^sup>T * v\<close>, the 1 by 1 product read as a scalar.\<close>

definition dot :: "('n::enum) TParameter \<Rightarrow> 'n TParameter \<Rightarrow> double" where
  "dot u v = redux (map (\<lambda>j. u j * v j) Enum.enum)"

text \<open>\<open>u * v\<^sup>T\<close>.\<close>

definition outer :: "'n TParameter \<Rightarrow> 'n TParameter \<Rightarrow> 'n TWeight" where
  "outer u v = (\<lambda>j k. u j * v k)"

definition mat_vec :: "('n::enum) TWeight \<Rightarrow> 'n TParameter \<Rightarrow> 'n TParameter" where
  "mat_vec A v = (\<lambda>j. redux (map (\<lambda>k. A j k * v k) Enum.enum))"

section \<open>The collaborators\<close>

text \<open>
  \<^verbatim>\<open>IWorld\<close> and \<^verbatim>\<open>continuousNoisePolicy\<close> are declared in headers that
  \<^verbatim>\<open>Power.h\<close> includes; they are parameters of the model. Both may draw random
  numbers, so each call takes the hidden state \<open>'e\<close> of the surroundings (the random
  generator) and returns the next one. \<^verbatim>\<open>act\<close> returns the reward and writes the next
  state through a reference; the policy returns the action and writes the noise sample
  \<^verbatim>\<open>epsilon\<close> through a reference.
\<close>

record ('n, 'e) IWorld =
  act :: "'e \<Rightarrow> 'n TParameter \<Rightarrow> double \<Rightarrow> double \<times> 'n TParameter \<times> 'e"
  isTerminal :: "'n TParameter \<Rightarrow> bool"

type_synonym ('n, 'e) noise_policy =
  "'e \<Rightarrow> 'n TParameter \<Rightarrow> 'n TParameter \<Rightarrow> double \<times> 'n TParameter \<times> 'e"

section \<open>\<^verbatim>\<open>episode\<close>\<close>

subsection \<open>The rollout (the do-while loop)\<close>

text \<open>The variables of the loop: the current state, the three vectors, the counter.\<close>

record ('n, 'e) rollout =
  state :: "'n TParameter"
  rewards :: "double list"
  epsilons :: "'n TParameter list"
  states :: "'n TParameter list"
  step :: nat
  env :: 'e

definition rollout_init :: "'e \<Rightarrow> ('n, 'e) rollout" where
  "rollout_init e =
     \<lparr>state = TParameter_Zero, rewards = [], epsilons = [], states = [], step = 0, env = e\<rparr>"

definition rollout_body ::
  "('n, 'e) IWorld \<Rightarrow> ('n, 'e) noise_policy \<Rightarrow> 'n TParameter \<Rightarrow>
   ('n, 'e) rollout \<Rightarrow> ('n, 'e) rollout" where
  "rollout_body world continuousNoisePolicy theta t =
     (case continuousNoisePolicy (env t) theta (state t) of
        (action, epsilon, e1) \<Rightarrow>
          (case act world e1 (state t) action of
             (reward, nextState, e2) \<Rightarrow>
               \<lparr>state = nextState,
                rewards = rewards t @ [reward],
                epsilons = epsilons t @ [epsilon],
                states = states t @ [state t],
                step = Suc (step t),
                env = e2\<rparr>))"

text \<open>
  \<^verbatim>\<open>do { ... ++step; } while (step < episodeLength && !world.isTerminal(state));\<close>
  The counter is a \<^verbatim>\<open>std::size_t\<close>; it is incremented only from a value below
  \<^verbatim>\<open>episodeLength\<close> or from 0, so it does not wrap around.
\<close>

function rollout_loop ::
  "('n, 'e) IWorld \<Rightarrow> ('n, 'e) noise_policy \<Rightarrow> 'n TParameter \<Rightarrow> nat \<Rightarrow>
   ('n, 'e) rollout \<Rightarrow> ('n, 'e) rollout" where
  "rollout_loop world continuousNoisePolicy theta episodeLength t =
     (let t' = rollout_body world continuousNoisePolicy theta t
      in if step t' < episodeLength \<and> \<not> isTerminal world (state t')
         then rollout_loop world continuousNoisePolicy theta episodeLength t'
         else t')"
  by pat_completeness auto
termination
  by (relation "measure (\<lambda>(world, continuousNoisePolicy, theta, episodeLength, t).
        episodeLength - step t)")
    (auto simp: rollout_body_def split: prod.splits)

declare rollout_loop.simps [simp del]

definition run_rollout ::
  "('n, 'e) IWorld \<Rightarrow> ('n, 'e) noise_policy \<Rightarrow> 'n TParameter \<Rightarrow> nat \<Rightarrow> 'e \<Rightarrow>
   ('n, 'e) rollout" where
  "run_rollout world continuousNoisePolicy theta episodeLength e =
     rollout_loop world continuousNoisePolicy theta episodeLength (rollout_init e)"

subsection \<open>The reward-to-go pass\<close>

text \<open>
  \<^verbatim>\<open>for (auto i = rewards.rbegin(); i != rewards.rend(); ++i) { reward += *i; *i = reward; }\<close>
  \<open>accumulate\<close> walks the reversed vector with the running sum \<^verbatim>\<open>reward\<close>.
\<close>

fun accumulate :: "double \<Rightarrow> double list \<Rightarrow> double list" where
  "accumulate reward [] = []"
| "accumulate reward (x # xs) = (reward + x) # accumulate (reward + x) xs"

definition reward_to_go :: "double list \<Rightarrow> double list" where
  "reward_to_go rs = rev (accumulate 0 (rev rs))"

subsection \<open>The weighting pass\<close>

text \<open>The local \<^verbatim>\<open>weight\<close> of the loop body at index \<open>i\<close>.\<close>

definition weight :: "double \<Rightarrow> ('n::enum, 'e) rollout \<Rightarrow> nat \<Rightarrow> 'n TWeight" where
  "weight sigma t i =
     (if i = 0 then TWeight_Identity
      else mat_scale (outer (states t ! i) (states t ! i))
             (1 div dot (vec_scale (states t ! i) sigma) (states t ! i)))"

function weighting_loop ::
  "double \<Rightarrow> ('n::enum, 'e) rollout \<Rightarrow> nat \<Rightarrow> 'n TWeight \<times> 'n TParameter \<Rightarrow>
   'n TWeight \<times> 'n TParameter" where
  "weighting_loop sigma t i (weightRewards, epsilonRewards) =
     (if i < length (rewards t)
      then weighting_loop sigma t (Suc i)
             (mat_add weightRewards (mat_scale (weight sigma t i) (rewards t ! i)),
              vec_add epsilonRewards
                (vec_scale (mat_vec (weight sigma t i) (epsilons t ! i)) (rewards t ! i)))
      else (weightRewards, epsilonRewards))"
  by pat_completeness auto
termination
  by (relation "measure (\<lambda>(sigma, t, i, acc). length (rewards t) - i)") auto

declare weighting_loop.simps [simp del]

subsection \<open>The whole function\<close>

text \<open>
  \<^verbatim>\<open>weightRewards\<close> and \<^verbatim>\<open>epsilonRewards\<close> are reference parameters: the model takes
  their incoming values and returns their final ones, after the returned reward and before
  the hidden state.
\<close>

definition episode ::
  "('n::enum, 'e) IWorld \<Rightarrow> ('n, 'e) noise_policy \<Rightarrow> 'n TParameter \<Rightarrow>
   'n TWeight \<Rightarrow> 'n TParameter \<Rightarrow> double \<Rightarrow> nat \<Rightarrow> 'e \<Rightarrow>
   double \<times> 'n TWeight \<times> 'n TParameter \<times> 'e" where
  "episode world continuousNoisePolicy theta weightRewards epsilonRewards sigma
     episodeLength e =
     (let t = run_rollout world continuousNoisePolicy theta episodeLength e;
          t = t\<lparr>rewards := reward_to_go (rewards t)\<rparr>;
          weightRewards = TWeight_Zero;
          epsilonRewards = TParameter_Zero;
          (weightRewards, epsilonRewards) =
             weighting_loop sigma t 0 (weightRewards, epsilonRewards)
      in (rewards t ! 0, weightRewards, epsilonRewards, env t))"

section \<open>\<^verbatim>\<open>episodes\<close>\<close>

text \<open>
  The locals \<^verbatim>\<open>weightRewards\<close> and \<^verbatim>\<open>epsilonRewards\<close> of the loop body are passed
  to \<^verbatim>\<open>episode\<close> uninitialised: \<open>undefined\<close>, a value about which nothing is known.
  \<^verbatim>\<open>TWeight::inverse\<close> belongs to the matrix library and is the parameter
  \<open>Winverse\<close>. The accumulator \<^verbatim>\<open>rewards\<close> of the source is \<open>rewardSum\<close> here, and
  the literal \<^verbatim>\<open>0.5\<close> passed for \<^verbatim>\<open>sigma\<close> is \<open>half\<close>.
\<close>

function episodes_loop ::
  "('n::enum, 'e) IWorld \<Rightarrow> ('n, 'e) noise_policy \<Rightarrow> 'n TParameter \<Rightarrow> nat \<Rightarrow> nat \<Rightarrow>
   nat \<Rightarrow> 'n TWeight \<times> 'n TParameter \<times> double \<times> 'e \<Rightarrow>
   'n TWeight \<times> 'n TParameter \<times> double \<times> 'e" where
  "episodes_loop world continuousNoisePolicy theta updateEpisode episodeLength i
     (sumWeightRewards, sumEpsilonRewards, rewardSum, e) =
     (if i < updateEpisode
      then (case episode world continuousNoisePolicy theta undefined undefined (half)
                   episodeLength e of
              (r, weightRewards, epsilonRewards, e') \<Rightarrow>
                episodes_loop world continuousNoisePolicy theta updateEpisode episodeLength
                  (Suc i)
                  (mat_add sumWeightRewards weightRewards,
                   vec_add sumEpsilonRewards epsilonRewards,
                   rewardSum + r, e'))
      else (sumWeightRewards, sumEpsilonRewards, rewardSum, e))"
  by pat_completeness auto
termination
  by (relation "measure (\<lambda>(world, continuousNoisePolicy, theta, updateEpisode,
        episodeLength, i, acc). updateEpisode - i)") auto

declare episodes_loop.simps [simp del]

text \<open>The result: the returned mean reward, the out-parameter \<^verbatim>\<open>update\<close>, the hidden state.\<close>

definition episodes ::
  "('n::enum, 'e) IWorld \<Rightarrow> ('n, 'e) noise_policy \<Rightarrow> ('n TWeight \<Rightarrow> 'n TWeight) \<Rightarrow>
   'n TParameter \<Rightarrow> nat \<Rightarrow> nat \<Rightarrow> 'e \<Rightarrow> double \<times> 'n TParameter \<times> 'e" where
  "episodes world continuousNoisePolicy Winverse theta updateEpisode episodeLength e =
     (case episodes_loop world continuousNoisePolicy theta updateEpisode episodeLength 0
             (TWeight_Zero, TParameter_Zero, 0, e) of
        (sumWeightRewards, sumEpsilonRewards, rewardSum, e') \<Rightarrow>
          (let sumWeightRewards = mat_div sumWeightRewards (double_of_size updateEpisode);
               sumEpsilonRewards = vec_div sumEpsilonRewards (double_of_size updateEpisode);
               update = mat_vec (Winverse sumWeightRewards) sumEpsilonRewards
           in (rewardSum div double_of_size updateEpisode, update, e')))"

text \<open>
  What the spec says \<^verbatim>\<open>episodes\<close> computes, to compare the loop with: the results of
  \<open>n\<close> calls of \<^verbatim>\<open>episode\<close> in a row with the same \<open>theta\<close>, each from the hidden state
  the one before has left, and the sums of their three components, each added up from
  zero in the order of the episodes.
\<close>

fun episode_results ::
  "('n::enum, 'e) IWorld \<Rightarrow> ('n, 'e) noise_policy \<Rightarrow> 'n TParameter \<Rightarrow> nat \<Rightarrow> nat \<Rightarrow> 'e \<Rightarrow>
   (double \<times> 'n TWeight \<times> 'n TParameter) list \<times> 'e" where
  "episode_results world continuousNoisePolicy theta episodeLength 0 e = ([], e)"
| "episode_results world continuousNoisePolicy theta episodeLength (Suc n) e =
     (case episode world continuousNoisePolicy theta TWeight_Zero TParameter_Zero (half)
             episodeLength e of
        (r, weight_sum, noise_weighted_sum, e') \<Rightarrow>
          (case episode_results world continuousNoisePolicy theta episodeLength n e' of
             (results, e'') \<Rightarrow> ((r, weight_sum, noise_weighted_sum) # results, e'')))"

definition total_return :: "(double \<times> 'n TWeight \<times> 'n TParameter) list \<Rightarrow> double" where
  "total_return results = foldl (+) 0 (map fst results)"

definition total_weight :: "(double \<times> 'n TWeight \<times> 'n TParameter) list \<Rightarrow> 'n TWeight" where
  "total_weight results = foldl mat_add TWeight_Zero (map (\<lambda>x. fst (snd x)) results)"

definition total_noise :: "(double \<times> 'n TWeight \<times> 'n TParameter) list \<Rightarrow> 'n TParameter" where
  "total_noise results = foldl vec_add TParameter_Zero (map (\<lambda>x. snd (snd x)) results)"

section \<open>\<^verbatim>\<open>power\<close>\<close>

function power_loop ::
  "('n::enum, 'e) IWorld \<Rightarrow> ('n, 'e) noise_policy \<Rightarrow> ('n TWeight \<Rightarrow> 'n TWeight) \<Rightarrow>
   nat \<Rightarrow> nat \<Rightarrow> nat \<Rightarrow> nat \<Rightarrow> 'n TParameter \<times> 'e \<Rightarrow> 'n TParameter \<times> 'e" where
  "power_loop world continuousNoisePolicy Winverse updates updateEpisode episodeLength i
     (theta, e) =
     (if i < updates
      then (case episodes world continuousNoisePolicy Winverse theta updateEpisode
                   episodeLength e of
              (meanReward, update, e') \<Rightarrow>
                power_loop world continuousNoisePolicy Winverse updates updateEpisode
                  episodeLength (Suc i) (vec_add theta update, e'))
      else (theta, e))"
  by pat_completeness auto
termination
  by (relation "measure (\<lambda>(world, continuousNoisePolicy, Winverse, updates, updateEpisode,
        episodeLength, i, acc). updates - i)") auto

declare power_loop.simps [simp del]

text \<open>\<^verbatim>\<open>theta\<close> is a reference parameter: the model returns its final value.\<close>

definition power ::
  "('n::enum, 'e) IWorld \<Rightarrow> ('n, 'e) noise_policy \<Rightarrow> ('n TWeight \<Rightarrow> 'n TWeight) \<Rightarrow>
   'n TParameter \<Rightarrow> nat \<Rightarrow> nat \<Rightarrow> nat \<Rightarrow> 'e \<Rightarrow> 'n TParameter \<times> 'e" where
  "power world continuousNoisePolicy Winverse theta updates updateEpisode episodeLength e =
     power_loop world continuousNoisePolicy Winverse updates updateEpisode episodeLength 0
       (theta, e)"

text \<open>
  One pass through the body of the loop of \<^verbatim>\<open>power\<close> (lines 102 to 105), as a function
  of the parameter and the hidden state: the iteration that the loop is compared with.
\<close>

definition power_iteration ::
  "('n::enum, 'e) IWorld \<Rightarrow> ('n, 'e) noise_policy \<Rightarrow> ('n TWeight \<Rightarrow> 'n TWeight) \<Rightarrow>
   nat \<Rightarrow> nat \<Rightarrow> 'n TParameter \<times> 'e \<Rightarrow> 'n TParameter \<times> 'e" where
  "power_iteration world continuousNoisePolicy Winverse updateEpisode episodeLength x =
     (case x of (theta, e) \<Rightarrow>
        (case episodes world continuousNoisePolicy Winverse theta updateEpisode episodeLength e of
           (meanReward, update, e') \<Rightarrow> (vec_add theta update, e')))"

section \<open>Test doubles\<close>

text \<open>
  One-dimensional worlds and policies (\<open>'n = unit\<close>) on which the functions are
  evaluated; the hidden state is a counter. Both worlds pay the reward 1 at every step and
  are never terminal: \<open>counting_world\<close> moves the state by 1 at each step,
  \<open>still_world\<close> leaves it where it is. \<open>zero_noise\<close> is the policy whose noise is
  fixed to zero, \<open>counter_noise\<close> perturbs the action by the counter and advances it.
  \<open>inverse1\<close> is the inverse of a 1 by 1 matrix, the reciprocal of its only entry, and
  \<open>unit_theta\<close> the parameter vector with the entry 1.
\<close>

definition counting_world :: "(unit, nat) IWorld" where
  "counting_world =
     \<lparr>act = (\<lambda>e s a. (1, (\<lambda>j. s j + 1), e)), isTerminal = (\<lambda>s. False)\<rparr>"

definition still_world :: "(unit, nat) IWorld" where
  "still_world = \<lparr>act = (\<lambda>e s a. (1, s, e)), isTerminal = (\<lambda>s. False)\<rparr>"

definition zero_noise :: "(unit, nat) noise_policy" where
  "zero_noise e theta s = (dot theta s, TParameter_Zero, e)"

definition counter_noise :: "(unit, nat) noise_policy" where
  "counter_noise e theta s = (dot theta s + double_of_size e, (\<lambda>j. double_of_size e), Suc e)"

definition inverse1 :: "unit TWeight \<Rightarrow> unit TWeight" where
  "inverse1 A = (\<lambda>j k. 1 div A () ())"

definition unit_theta :: "unit TParameter" where
  "unit_theta = (\<lambda>j. 1)"

text \<open>
  \<open>tiny_world\<close> pays the reward 1 too and moves to the state two to the power - 538,
  whose square is below the smallest positive double.
\<close>

definition tiny_world :: "(unit, nat) IWorld" where
  "tiny_world =
     \<lparr>act = (\<lambda>e s a. (1, (\<lambda>j. double_lit False (- 538) 1), e)), isTerminal = (\<lambda>s. False)\<rparr>"

section \<open>The rollout: how many transitions it records\<close>

lemma step_rollout_body:
  "step (rollout_body world continuousNoisePolicy theta t) = Suc (step t)"
  by (simp add: rollout_body_def split: prod.splits)

lemma lengths_rollout_body:
  "length (rewards (rollout_body world continuousNoisePolicy theta t)) = Suc (length (rewards t))"
  "length (epsilons (rollout_body world continuousNoisePolicy theta t)) =
     Suc (length (epsilons t))"
  "length (states (rollout_body world continuousNoisePolicy theta t)) = Suc (length (states t))"
  by (simp_all add: rollout_body_def split: prod.splits)

text \<open>The two ways through the loop, as equations.\<close>

lemma rollout_loop_continue:
  "step (rollout_body world continuousNoisePolicy theta t) < episodeLength \<Longrightarrow>
   \<not> isTerminal world (state (rollout_body world continuousNoisePolicy theta t)) \<Longrightarrow>
   rollout_loop world continuousNoisePolicy theta episodeLength t =
     rollout_loop world continuousNoisePolicy theta episodeLength
       (rollout_body world continuousNoisePolicy theta t)"
  by (subst rollout_loop.simps) (simp add: Let_def)

lemma rollout_loop_stop:
  "\<not> (step (rollout_body world continuousNoisePolicy theta t) < episodeLength \<and>
      \<not> isTerminal world (state (rollout_body world continuousNoisePolicy theta t))) \<Longrightarrow>
   rollout_loop world continuousNoisePolicy theta episodeLength t =
     rollout_body world continuousNoisePolicy theta t"
  by (subst rollout_loop.simps) (auto simp add: Let_def)

lemma rollout_loop_lengths:
  assumes "length (rewards t) = step t" "length (epsilons t) = step t"
    "length (states t) = step t"
  shows "length (rewards (rollout_loop world continuousNoisePolicy theta episodeLength t)) =
           step (rollout_loop world continuousNoisePolicy theta episodeLength t) \<and>
         length (epsilons (rollout_loop world continuousNoisePolicy theta episodeLength t)) =
           step (rollout_loop world continuousNoisePolicy theta episodeLength t) \<and>
         length (states (rollout_loop world continuousNoisePolicy theta episodeLength t)) =
           step (rollout_loop world continuousNoisePolicy theta episodeLength t)"
  using assms
proof (induction world continuousNoisePolicy theta episodeLength t rule: rollout_loop.induct)
  case (1 world continuousNoisePolicy theta episodeLength t)
  let ?t' = "rollout_body world continuousNoisePolicy theta t"
  have inv: "length (rewards ?t') = step ?t'" "length (epsilons ?t') = step ?t'"
    "length (states ?t') = step ?t'"
    using "1.prems" by (simp_all add: step_rollout_body lengths_rollout_body)
  show ?case
  proof (cases "step ?t' < episodeLength \<and> \<not> isTerminal world (state ?t')")
    case True
    with "1.IH" [OF refl True inv] show ?thesis
      by (simp add: rollout_loop_continue)
  next
    case False
    from inv show ?thesis
      by (simp only: rollout_loop_stop [OF False])
  qed
qed

lemma rollout_loop_step_bounds:
  "Suc (step t) \<le> step (rollout_loop world continuousNoisePolicy theta episodeLength t) \<and>
   step (rollout_loop world continuousNoisePolicy theta episodeLength t)
     \<le> max (Suc (step t)) episodeLength"
proof (induction world continuousNoisePolicy theta episodeLength t rule: rollout_loop.induct)
  case (1 world continuousNoisePolicy theta episodeLength t)
  let ?t' = "rollout_body world continuousNoisePolicy theta t"
  show ?case
  proof (cases "step ?t' < episodeLength \<and> \<not> isTerminal world (state ?t')")
    case True
    with "1.IH" [OF refl True] show ?thesis
      by (simp add: rollout_loop_continue step_rollout_body)
  next
    case False
    show ?thesis
      unfolding rollout_loop_stop [OF False] by (simp add: step_rollout_body)
  qed
qed

lemma run_rollout_lengths:
  "length (rewards (run_rollout world continuousNoisePolicy theta episodeLength e)) =
     step (run_rollout world continuousNoisePolicy theta episodeLength e)"
  "length (epsilons (run_rollout world continuousNoisePolicy theta episodeLength e)) =
     step (run_rollout world continuousNoisePolicy theta episodeLength e)"
  "length (states (run_rollout world continuousNoisePolicy theta episodeLength e)) =
     step (run_rollout world continuousNoisePolicy theta episodeLength e)"
  unfolding run_rollout_def
  using rollout_loop_lengths [of "rollout_init e" world continuousNoisePolicy theta episodeLength]
  by (simp_all add: rollout_init_def)

lemma run_rollout_step_bounds:
  "1 \<le> step (run_rollout world continuousNoisePolicy theta episodeLength e)"
  "step (run_rollout world continuousNoisePolicy theta episodeLength e) \<le> max 1 episodeLength"
proof -
  have "step (rollout_init e :: ('a, 'b) rollout) = 0"
    by (simp add: rollout_init_def)
  with rollout_loop_step_bounds [of "rollout_init e" world continuousNoisePolicy theta
      episodeLength]
  show "1 \<le> step (run_rollout world continuousNoisePolicy theta episodeLength e)"
    and "step (run_rollout world continuousNoisePolicy theta episodeLength e)
      \<le> max 1 episodeLength"
    by (simp_all add: run_rollout_def)
qed

text \<open>
  C8. Within one episode the number of recorded noise samples, of recorded states and of
  recorded rewards are the same, and equal to the number of executed steps (the final
  value of the counter \<^verbatim>\<open>step\<close>); the reward-to-go pass, which rewrites the rewards in
  place, keeps their number.
\<close>

theorem episode_records_one_triple_per_step:
  "length (epsilons (run_rollout world continuousNoisePolicy theta episodeLength e)) =
     step (run_rollout world continuousNoisePolicy theta episodeLength e) \<and>
   length (states (run_rollout world continuousNoisePolicy theta episodeLength e)) =
     step (run_rollout world continuousNoisePolicy theta episodeLength e) \<and>
   length (rewards (run_rollout world continuousNoisePolicy theta episodeLength e)) =
     step (run_rollout world continuousNoisePolicy theta episodeLength e) \<and>
   length (reward_to_go (rewards (run_rollout world continuousNoisePolicy theta episodeLength e)))
     = step (run_rollout world continuousNoisePolicy theta episodeLength e)"
proof -
  have "length (accumulate r xs) = length xs" for r xs
    by (induction xs arbitrary: r) simp_all
  then have "length (reward_to_go rs) = length rs" for rs
    by (simp add: reward_to_go_def)
  then show ?thesis
    by (simp add: run_rollout_lengths)
qed

text \<open>
  The bounds of the loop: it records at least one transition, whatever the world says
  about the initial state, and at most \<open>max 1 episodeLength\<close>.
\<close>

lemma episode_records_between_one_and_limit:
  "1 \<le> step (run_rollout world continuousNoisePolicy theta episodeLength e) \<and>
   step (run_rollout world continuousNoisePolicy theta episodeLength e) \<le> max 1 episodeLength \<and>
   length (states (run_rollout world continuousNoisePolicy theta episodeLength e)) =
     step (run_rollout world continuousNoisePolicy theta episodeLength e)"
  using run_rollout_step_bounds [of world continuousNoisePolicy theta episodeLength e]
  by (simp add: run_rollout_lengths)

text \<open>
  C3. The claim bounds the number of recorded transitions by \<^verbatim>\<open>episodeLength\<close> for every
  value of it, as the comment of \<^verbatim>\<open>episode\<close> does (``length at most episodeLength
  steps''). The code does not keep that bound for \<^verbatim>\<open>episodeLength = 0\<close>: the do-while
  runs its body before it looks at the limit, so in every world one step is executed and
  one transition recorded, which is more than 0.
\<close>

theorem episode_zero_limit_records_one:
  "step (run_rollout world continuousNoisePolicy theta 0 e) = 1 \<and>
   length (states (run_rollout world continuousNoisePolicy theta 0 e)) = 1 \<and>
   length (rewards (run_rollout world continuousNoisePolicy theta 0 e)) = 1 \<and>
   \<not> length (states (run_rollout world continuousNoisePolicy theta 0 e)) \<le> 0"
  using run_rollout_step_bounds [of world continuousNoisePolicy theta 0 e]
  by (simp add: run_rollout_lengths)

section \<open>The out-parameters of \<^verbatim>\<open>episode\<close>\<close>

text \<open>
  C10. The returned reward and the final values of \<^verbatim>\<open>weightRewards\<close> and
  \<^verbatim>\<open>epsilonRewards\<close> do not depend on the incoming values of these two parameters: two
  calls that differ only there give the same results, since both are set to zero before
  the weighting pass reads them.
\<close>

theorem episode_ignores_incoming_accumulators:
  "episode world continuousNoisePolicy theta weightRewards epsilonRewards sigma episodeLength e =
   episode world continuousNoisePolicy theta weightRewards' epsilonRewards' sigma episodeLength e"
  by (simp add: episode_def)

section \<open>The improvement loop\<close>

lemma power_loop_funpow:
  "power_loop world continuousNoisePolicy Winverse updates updateEpisode episodeLength i x =
   (power_iteration world continuousNoisePolicy Winverse updateEpisode episodeLength
      ^^ (updates - i)) x"
proof (induction world continuousNoisePolicy Winverse updates updateEpisode episodeLength i x
    rule: power_loop.induct)
  case (1 world continuousNoisePolicy Winverse updates updateEpisode episodeLength i theta e)
  let ?iter = "power_iteration world continuousNoisePolicy Winverse updateEpisode episodeLength"
  show ?case
  proof (cases "i < updates")
    case True
    obtain m u e' where ep:
      "episodes world continuousNoisePolicy Winverse theta updateEpisode episodeLength e =
         (m, u, e')"
      by (cases "episodes world continuousNoisePolicy Winverse theta updateEpisode
            episodeLength e") auto
    have body: "?iter (theta, e) = (vec_add theta u, e')"
      by (simp add: power_iteration_def ep)
    have "power_loop world continuousNoisePolicy Winverse updates updateEpisode episodeLength i
        (theta, e) =
      power_loop world continuousNoisePolicy Winverse updates updateEpisode episodeLength (Suc i)
        (vec_add theta u, e')"
      using True by (subst power_loop.simps) (simp add: ep)
    also have "\<dots> = (?iter ^^ (updates - Suc i)) (vec_add theta u, e')"
      using "1.IH" [OF True, of m "(u, e')" u e'] by (simp add: ep)
    also have "\<dots> = (?iter ^^ Suc (updates - Suc i)) (theta, e)"
      by (simp add: funpow_swap1 body)
    also have "Suc (updates - Suc i) = updates - i"
      using True by simp
    finally show ?thesis .
  next
    case False
    then show ?thesis by (subst power_loop.simps) simp
  qed
qed

text \<open>
  C5. \<^verbatim>\<open>power\<close> with \<open>n\<close> updates is \<open>n\<close> iterations of the loop body, each calling
  \<^verbatim>\<open>episodes\<close> with the current \<open>theta\<close> and replacing \<open>theta\<close> by \<open>theta\<close> plus the
  returned update vector: no update leaves \<open>theta\<close> as it is, and \<open>n + 1\<close> updates are
  \<open>n\<close> updates followed by one more iteration.
\<close>

theorem power_iterates:
  "power world continuousNoisePolicy Winverse theta 0 updateEpisode episodeLength e = (theta, e) \<and>
   power world continuousNoisePolicy Winverse theta (Suc n) updateEpisode episodeLength e =
     (case power world continuousNoisePolicy Winverse theta n updateEpisode episodeLength e of
        (theta', e') \<Rightarrow>
          (case episodes world continuousNoisePolicy Winverse theta' updateEpisode
                  episodeLength e' of
             (meanReward, update, e'') \<Rightarrow> (vec_add theta' update, e''))) \<and>
   power world continuousNoisePolicy Winverse theta n updateEpisode episodeLength e =
     (power_iteration world continuousNoisePolicy Winverse updateEpisode episodeLength ^^ n)
       (theta, e)"
  by (simp add: power_def power_loop_funpow power_iteration_def split: prod.splits)

section \<open>The reward-to-go pass\<close>

lemma length_accumulate: "length (accumulate r xs) = length xs"
  by (induction xs arbitrary: r) simp_all

lemma length_reward_to_go: "length (reward_to_go rs) = length rs"
  by (simp add: reward_to_go_def length_accumulate)

lemma accumulate_nth:
  "i < length xs \<Longrightarrow> accumulate r xs ! i = foldl (+) r (take (Suc i) xs)"
proof (induction xs arbitrary: r i)
  case Nil
  then show ?case by simp
next
  case (Cons x xs)
  show ?case
  proof (cases i)
    case 0
    then show ?thesis by simp
  next
    case (Suc k)
    with Cons.prems have "k < length xs" by simp
    from Cons.IH [OF this, of "r + x"] Suc show ?thesis
      by simp
  qed
qed

text \<open>Entry \<open>i\<close> is the sum of the rewards from the last one down to the one at \<open>i\<close>.\<close>

lemma reward_to_go_nth:
  assumes "i < length rs"
  shows "reward_to_go rs ! i = foldl (+) 0 (rev (drop i rs))"
proof -
  have "reward_to_go rs ! i = accumulate 0 (rev rs) ! (length rs - Suc i)"
    using assms by (simp add: reward_to_go_def rev_nth length_accumulate)
  also have "\<dots> = foldl (+) 0 (take (Suc (length rs - Suc i)) (rev rs))"
    using assms by (simp add: accumulate_nth)
  also have "Suc (length rs - Suc i) = length rs - i"
    using assms by simp
  also have "take (length rs - i) (rev rs) = rev (drop i rs)"
    using assms by (simp add: take_rev)
  finally show ?thesis .
qed

lemma run_rollout_rewards_nonempty:
  "rewards (run_rollout world continuousNoisePolicy theta episodeLength e) \<noteq> []"
  using run_rollout_step_bounds(1) [of world continuousNoisePolicy theta episodeLength e]
    run_rollout_lengths(1) [of world continuousNoisePolicy theta episodeLength e]
  by auto

lemma fst_episode:
  "fst (episode world continuousNoisePolicy theta weightRewards epsilonRewards sigma
          episodeLength e) =
   reward_to_go (rewards (run_rollout world continuousNoisePolicy theta episodeLength e)) ! 0"
  by (simp add: episode_def Let_def split: prod.splits)

text \<open>
  C2. For a recorded reward sequence \<open>rs = [r\<^sub>0, \<dots>, r\<^sub>n]\<close> of doubles, the reward-to-go
  pass gives a sequence \<open>agg\<close> of the same length. Its last entry is \<open>0.0 + r\<^sub>n\<close>, which is
  \<open>r\<^sub>n\<close> itself, except that for the negative zero it is the positive zero (the same
  number); \<open>agg[i] = r\<^sub>i + agg[i+1]\<close> for every \<open>i < n\<close>; \<open>agg[0]\<close> is the sum of all
  rewards, added up in double arithmetic from the last to the first; and \<^verbatim>\<open>episode\<close>
  returns \<open>agg[0]\<close> of the rewards it recorded.
\<close>

theorem reward_to_go_suffix_sums:
  assumes "rs \<noteq> []"
  shows "length (reward_to_go rs) = length rs \<and>
    reward_to_go rs ! (length rs - 1) = 0 + rs ! (length rs - 1) \<and>
    (rs ! (length rs - 1) \<noteq> neg_zero \<longrightarrow>
       reward_to_go rs ! (length rs - 1) = rs ! (length rs - 1)) \<and>
    (rs ! (length rs - 1) = neg_zero \<longrightarrow> reward_to_go rs ! (length rs - 1) = 0) \<and>
    (\<forall>i. Suc i < length rs \<longrightarrow> reward_to_go rs ! i = rs ! i + reward_to_go rs ! Suc i) \<and>
    reward_to_go rs ! 0 = foldl (+) 0 (rev rs) \<and>
    fst (episode world continuousNoisePolicy theta weightRewards epsilonRewards sigma
           episodeLength e) =
      reward_to_go (rewards (run_rollout world continuousNoisePolicy theta episodeLength e)) ! 0 \<and>
    fst (episode world continuousNoisePolicy theta weightRewards epsilonRewards sigma
           episodeLength e) =
      foldl (+) 0 (rev (rewards (run_rollout world continuousNoisePolicy theta episodeLength e)))"
proof -
  from assms have pos: "0 < length rs" by simp
  have "drop (length rs - 1) rs = [rs ! (length rs - 1)]"
    using pos by (metis Cons_nth_drop_Suc Suc_diff_1 diff_less drop_all le_refl zero_less_one)
  with pos have last: "reward_to_go rs ! (length rs - 1) = 0 + rs ! (length rs - 1)"
    by (simp add: reward_to_go_nth)
  have same: "reward_to_go rs ! (length rs - 1) = rs ! (length rs - 1)"
    if "rs ! (length rs - 1) \<noteq> neg_zero"
    unfolding last using that by (rule double_zero_add)
  have zero: "reward_to_go rs ! (length rs - 1) = 0" if "rs ! (length rs - 1) = neg_zero"
    unfolding last that by (rule double_zero_add_neg_zero)
  have step: "reward_to_go rs ! i = rs ! i + reward_to_go rs ! Suc i" if "Suc i < length rs" for i
  proof -
    from that have "drop i rs = rs ! i # drop (Suc i) rs"
      by (simp add: Cons_nth_drop_Suc)
    with that have "reward_to_go rs ! i = reward_to_go rs ! Suc i + rs ! i"
      by (simp add: reward_to_go_nth)
    then show ?thesis
      by (simp add: double_add_commute)
  qed
  have total: "reward_to_go rs ! 0 = foldl (+) 0 (rev rs)"
    using pos by (simp add: reward_to_go_nth)
  have "fst (episode world continuousNoisePolicy theta weightRewards epsilonRewards sigma
           episodeLength e) =
      foldl (+) 0 (rev (rewards (run_rollout world continuousNoisePolicy theta episodeLength e)))"
    using run_rollout_rewards_nonempty [of world continuousNoisePolicy theta episodeLength e]
    by (simp add: fst_episode reward_to_go_nth)
  with last same zero step total show ?thesis
    by (simp add: length_reward_to_go fst_episode)
qed

section \<open>\<^verbatim>\<open>episodes\<close>: the averages\<close>

lemma length_episode_results:
  "length (fst (episode_results world continuousNoisePolicy theta episodeLength n e)) = n"
proof (induction n arbitrary: e)
  case 0
  show ?case by simp
next
  case (Suc n)
  obtain r W E e1 where ep:
    "episode world continuousNoisePolicy theta TWeight_Zero TParameter_Zero half
       episodeLength e = (r, W, E, e1)"
    by (cases "episode world continuousNoisePolicy theta TWeight_Zero TParameter_Zero half
          episodeLength e") auto
  obtain results e2 where rest:
    "episode_results world continuousNoisePolicy theta episodeLength n e1 = (results, e2)"
    by (cases "episode_results world continuousNoisePolicy theta episodeLength n e1") auto
  from Suc.IH [of e1] rest have "length results = n" by simp
  then show ?case by (simp add: ep rest)
qed

text \<open>The loop from \<open>i\<close> on adds the results of the remaining episodes, in their order.\<close>

lemma episodes_loop_folds:
  "episodes_loop world continuousNoisePolicy theta updateEpisode episodeLength i acc =
     (case acc of (sumWeightRewards, sumEpsilonRewards, rewardSum, e) \<Rightarrow>
        (case episode_results world continuousNoisePolicy theta episodeLength
                (updateEpisode - i) e of
           (results, e') \<Rightarrow>
             (foldl mat_add sumWeightRewards (map (\<lambda>x. fst (snd x)) results),
              foldl vec_add sumEpsilonRewards (map (\<lambda>x. snd (snd x)) results),
              foldl (+) rewardSum (map fst results), e')))"
proof (induction world continuousNoisePolicy theta updateEpisode episodeLength i acc
    rule: episodes_loop.induct)
  case (1 world continuousNoisePolicy theta updateEpisode episodeLength i sumWeightRewards
      sumEpsilonRewards rewardSum e)
  show ?case
  proof (cases "i < updateEpisode")
    case True
    obtain r W E e1 where ep:
      "episode world continuousNoisePolicy theta undefined undefined half episodeLength e =
         (r, W, E, e1)"
      by (cases "episode world continuousNoisePolicy theta undefined undefined half
            episodeLength e") auto
    then have ep0:
      "episode world continuousNoisePolicy theta TWeight_Zero TParameter_Zero half
         episodeLength e = (r, W, E, e1)"
      by (simp add: episode_def)
    obtain results e2 where rest:
      "episode_results world continuousNoisePolicy theta episodeLength (updateEpisode - Suc i) e1
         = (results, e2)"
      by (cases "episode_results world continuousNoisePolicy theta episodeLength
            (updateEpisode - Suc i) e1") auto
    from True have "updateEpisode - i = Suc (updateEpisode - Suc i)" by simp
    then have all:
      "episode_results world continuousNoisePolicy theta episodeLength (updateEpisode - i) e =
         ((r, W, E) # results, e2)"
      by (simp add: ep0 rest)
    have "episodes_loop world continuousNoisePolicy theta updateEpisode episodeLength i
        (sumWeightRewards, sumEpsilonRewards, rewardSum, e) =
      episodes_loop world continuousNoisePolicy theta updateEpisode episodeLength (Suc i)
        (mat_add sumWeightRewards W, vec_add sumEpsilonRewards E, rewardSum + r, e1)"
      using True by (subst episodes_loop.simps) (simp add: ep)
    also have "\<dots> = (foldl mat_add (mat_add sumWeightRewards W) (map (\<lambda>x. fst (snd x)) results),
        foldl vec_add (vec_add sumEpsilonRewards E) (map (\<lambda>x. snd (snd x)) results),
        foldl (+) (rewardSum + r) (map fst results), e2)"
      using "1.IH" [OF True, of r "(W, E, e1)" W "(E, e1)" E e1] by (simp add: ep rest)
    finally show ?thesis by (simp add: all)
  next
    case False
    then show ?thesis
      by (subst episodes_loop.simps) simp
  qed
qed

lemma episodes_eq:
  "episodes world continuousNoisePolicy Winverse theta updateEpisode episodeLength e =
     (case episode_results world continuousNoisePolicy theta episodeLength updateEpisode e of
        (results, e') \<Rightarrow>
          (total_return results div double_of_size updateEpisode,
           mat_vec (Winverse (mat_div (total_weight results) (double_of_size updateEpisode)))
             (vec_div (total_noise results) (double_of_size updateEpisode)),
           e'))"
  by (simp add: episodes_def episodes_loop_folds Let_def total_return_def total_weight_def
      total_noise_def split: prod.splits)

text \<open>
  C1. For \<^verbatim>\<open>updateEpisode\<close> \<open>\<ge> 1\<close>, \<^verbatim>\<open>episodes\<close> runs that many episodes, adds up their
  weight sums and their noise-weighted sums (from zero, in the order of the episodes),
  divides each sum by the number of episodes, writes to \<^verbatim>\<open>update\<close> the inverse of the mean
  weight times the mean noise-weighted sum, and returns the sum of the episodes' returns
  divided by their number. All operations are those of double arithmetic.
\<close>

theorem episodes_averages:
  assumes "1 \<le> updateEpisode"
  shows "length (fst (episode_results world continuousNoisePolicy theta episodeLength
            updateEpisode e)) = updateEpisode \<and>
    episodes world continuousNoisePolicy Winverse theta updateEpisode episodeLength e =
     (case episode_results world continuousNoisePolicy theta episodeLength updateEpisode e of
        (results, e') \<Rightarrow>
          (foldl (+) 0 (map fst results) div double_of_size updateEpisode,
           mat_vec
             (Winverse (mat_div (foldl mat_add TWeight_Zero (map (\<lambda>x. fst (snd x)) results))
                (double_of_size updateEpisode)))
             (vec_div (foldl vec_add TParameter_Zero (map (\<lambda>x. snd (snd x)) results))
                (double_of_size updateEpisode)),
           e'))"
  by (simp add: length_episode_results episodes_eq total_return_def total_weight_def
      total_noise_def)

section \<open>The weighting pass\<close>

lemma weight_rewards_update:
  "weight sigma (t\<lparr>rewards := rs\<rparr>) i = weight sigma t i"
  by (simp add: weight_def)

text \<open>Each entry of the two accumulators is added up from its start value, index by index.\<close>

lemma weighting_loop_folds:
  "weighting_loop sigma t i acc =
     (case acc of (weightRewards, epsilonRewards) \<Rightarrow>
        ((\<lambda>j k. foldl (\<lambda>a m. a + weight sigma t m j k * rewards t ! m) (weightRewards j k)
                  [i..<length (rewards t)]),
         (\<lambda>j. foldl (\<lambda>a m. a + mat_vec (weight sigma t m) (epsilons t ! m) j * rewards t ! m)
                  (epsilonRewards j) [i..<length (rewards t)])))"
proof (induction sigma t i acc rule: weighting_loop.induct)
  case (1 sigma t i weightRewards epsilonRewards)
  show ?case
  proof (cases "i < length (rewards t)")
    case True
    then have split: "[i..<length (rewards t)] = i # [Suc i..<length (rewards t)]"
      by (rule upt_conv_Cons)
    show ?thesis
      using True "1.IH" [OF True]
      by (subst weighting_loop.simps)
        (simp add: split mat_add_def vec_add_def mat_scale_def vec_scale_def)
  next
    case False
    then show ?thesis
      by (subst weighting_loop.simps) simp
  qed
qed

lemma episode_closed_form:
  "episode world continuousNoisePolicy theta weightRewards epsilonRewards sigma episodeLength e =
     (let t = run_rollout world continuousNoisePolicy theta episodeLength e;
          agg = reward_to_go (rewards t)
      in (agg ! 0,
          (\<lambda>j k. foldl (\<lambda>a m. a + weight sigma t m j k * agg ! m) 0 [0..<length agg]),
          (\<lambda>j. foldl (\<lambda>a m. a + mat_vec (weight sigma t m) (epsilons t ! m) j * agg ! m) 0
                  [0..<length agg]),
          env t))"
  by (simp add: episode_def weighting_loop_folds Let_def weight_rewards_update
      TWeight_Zero_def TParameter_Zero_def)

text \<open>
  C6. In every episode the weight used at step index 0 is the identity matrix, whatever
  the state at step 0 is; at a step index \<open>i > 0\<close> its entry \<open>(j, k)\<close> is the entry of
  the outer product of \<open>state\<^sub>i\<close> with itself times \<open>1 / (state\<^sub>i\<^sup>T * sigma * state\<^sub>i)\<close>, in
  double arithmetic; and these are the weights that the sums returned by \<^verbatim>\<open>episode\<close> are
  made of, added up from zero in the order of the steps.
\<close>

theorem episode_precision_weights:
  "weight sigma t 0 = TWeight_Identity \<and>
   (\<forall>j k. weight sigma t 0 j k = (if j = k then 1 else 0)) \<and>
   (0 < i \<longrightarrow>
      weight sigma t i j k =
        (states t ! i) j * (states t ! i) k *
          (1 div redux (map (\<lambda>l. (states t ! i) l * sigma * (states t ! i) l) Enum.enum))) \<and>
   episode world continuousNoisePolicy theta weightRewards epsilonRewards sigma episodeLength e =
     (let r = run_rollout world continuousNoisePolicy theta episodeLength e;
          agg = reward_to_go (rewards r)
      in (agg ! 0,
          (\<lambda>j k. foldl (\<lambda>a m. a + weight sigma r m j k * agg ! m) 0 [0..<length agg]),
          (\<lambda>j. foldl
                  (\<lambda>a m. a + redux (map (\<lambda>k. weight sigma r m j k * (epsilons r ! m) k)
                                      Enum.enum) * agg ! m)
                  0 [0..<length agg]),
          env r))"
  by (simp add: episode_closed_form mat_vec_def)
    (simp add: weight_def TWeight_Identity_def mat_scale_def outer_def dot_def vec_scale_def)

section \<open>\<^verbatim>\<open>episodes\<close> with one episode\<close>

lemma foldl_add_not_neg_zero:
  "a \<noteq> neg_zero \<Longrightarrow> foldl (\<lambda>a m. a + f m) a ms \<noteq> neg_zero"
  by (induction ms arbitrary: a) (simp_all add: double_add_not_neg_zero)

lemma double_of_size_1: "double_of_size (Suc 0) = 1"
  by (simp add: Rep_double_inject [symmetric] double_eval)

text \<open>
  What \<^verbatim>\<open>episode\<close> returns was added up from the positive zero, so it is never the
  negative zero: adding it to zero and dividing it by 1 give it back.
\<close>

lemma episode_results_clean:
  assumes "episode world continuousNoisePolicy theta weightRewards epsilonRewards sigma
    episodeLength e = (r, W, E, e')"
  shows "0 + r = r" "mat_add TWeight_Zero W = W" "vec_add TParameter_Zero E = E"
proof -
  let ?t = "run_rollout world continuousNoisePolicy theta episodeLength e"
  let ?agg = "reward_to_go (rewards ?t)"
  from assms have r: "r = ?agg ! 0"
    and W: "W = (\<lambda>j k. foldl (\<lambda>a m. a + weight sigma ?t m j k * ?agg ! m) 0 [0..<length ?agg])"
    and E: "E = (\<lambda>j. foldl (\<lambda>a m. a + mat_vec (weight sigma ?t m) (epsilons ?t ! m) j * ?agg ! m)
      0 [0..<length ?agg])"
    by (simp_all add: episode_closed_form Let_def)
  have "?agg ! 0 = foldl (+) 0 (rev (rewards ?t))"
    using run_rollout_rewards_nonempty [of world continuousNoisePolicy theta episodeLength e]
    by (simp add: reward_to_go_nth)
  moreover have "foldl (+) 0 xs \<noteq> neg_zero" for xs
    using foldl_add_not_neg_zero [OF zero_not_neg_zero, of "\<lambda>m. m" xs] by simp
  ultimately have "r \<noteq> neg_zero"
    by (simp add: r)
  then show "0 + r = r" by (rule double_zero_add)
  have "W j k \<noteq> neg_zero" for j k
    unfolding W by (rule foldl_add_not_neg_zero [OF zero_not_neg_zero])
  then show "mat_add TWeight_Zero W = W"
    by (simp add: mat_add_def TWeight_Zero_def double_zero_add)
  have "E j \<noteq> neg_zero" for j
    unfolding E by (rule foldl_add_not_neg_zero [OF zero_not_neg_zero])
  then show "vec_add TParameter_Zero E = E"
    by (simp add: vec_add_def TParameter_Zero_def double_zero_add)
qed

text \<open>
  C7. With \<^verbatim>\<open>updateEpisode = 1\<close> the update vector is the inverse of the single
  episode's weight sum times its noise-weighted sum, and the mean reward is the episode's
  return: adding to zero and dividing by 1 change nothing. (The incoming values of the
  episode's out-parameters are arbitrary.)
\<close>

theorem episodes_single_episode:
  "episodes world continuousNoisePolicy Winverse theta 1 episodeLength e =
     (case episode world continuousNoisePolicy theta weightRewards epsilonRewards half
             episodeLength e of
        (r, weight_sum, noise_weighted_sum, e') \<Rightarrow>
          (r, mat_vec (Winverse weight_sum) noise_weighted_sum, e'))"
proof -
  obtain r W E e' where ep:
    "episode world continuousNoisePolicy theta weightRewards epsilonRewards half episodeLength e =
      (r, W, E, e')"
    by (cases "episode world continuousNoisePolicy theta weightRewards epsilonRewards half
          episodeLength e") auto
  then have ep0:
    "episode world continuousNoisePolicy theta undefined undefined half episodeLength e =
      (r, W, E, e')"
    by (simp add: episode_def)
  have div: "mat_div W 1 = W" "vec_div E 1 = E"
    by (simp_all add: mat_div_def vec_div_def double_div_one)
  show ?thesis
    by (simp add: episodes_def episodes_loop.simps ep ep0 episode_results_clean [OF ep]
        double_of_size_1 div double_div_one)
qed

section \<open>Evaluation\<close>

text \<open>The equations that evaluate the functions on the test doubles.\<close>

lemmas scenario_eval =
  episodes_def episode_def run_rollout_def rollout_init_def rollout_body_def counting_world_def
  still_world_def zero_noise_def counter_noise_def unit_theta_def inverse1_def Let_def
  TParameter_Zero_def TWeight_Zero_def TWeight_Identity_def reward_to_go_def weight_def
  mat_div_def vec_div_def mat_add_def vec_add_def mat_scale_def vec_scale_def mat_vec_def
  dot_def outer_def redux_def enum_unit_def rollout_loop.simps weighting_loop.simps
  episodes_loop.simps

section \<open>Non-finite values and zeros\<close>

lemma not_finite_add1: "\<not> is_finite x \<Longrightarrow> \<not> is_finite (x + y)"
  apply transfer
  subgoal for x y by (cases x; cases y) simp_all
  done

lemma not_finite_add2: "\<not> is_finite y \<Longrightarrow> \<not> is_finite (x + y)"
  apply transfer
  subgoal for y x by (cases x; cases y) simp_all
  done

lemma not_finite_mult1: "\<not> is_finite x \<Longrightarrow> \<not> is_finite (x * y)"
  apply transfer
  subgoal for x y by (cases x; cases y) simp_all
  done

lemma not_finite_mult2: "\<not> is_finite y \<Longrightarrow> \<not> is_finite (x * y)"
  apply transfer
  subgoal for y x by (cases x; cases y) simp_all
  done

lemma not_finite_infinity: "\<not> is_finite (infinity b)"
  by transfer simp

lemma not_finite_nan: "\<not> is_finite nan"
  by transfer simp

lemma is_zero_cases: "is_zero x \<Longrightarrow> x = 0 \<or> x = neg_zero"
  apply transfer
  subgoal for x by (cases x) (auto simp: valid_def)
  done

lemma one_div_zero: "1 div (0::double) = infinity False"
  by transfer simp

lemma one_div_neg_zero: "1 div neg_zero = infinity True"
  by transfer simp

lemma one_div_nan: "1 div nan = nan"
  by transfer simp

lemma nan_add: "nan + x = nan" "x + nan = nan"
  by (transfer, case_tac x, simp_all)+

lemma zero_add_self: "is_zero x \<Longrightarrow> x + x = x"
  apply transfer
  subgoal for x by (cases x) (auto simp: valid_def)
  done

lemma zero_sigma_term: "is_zero sigma \<Longrightarrow> x * sigma * x = sigma \<or> x * sigma * x = nan"
  apply transfer
  subgoal for sigma x
    by (cases sigma; cases x) (auto simp: valid_def round_double_def)
  done






section \<open>\<^verbatim>\<open>episode\<close> with \<open>sigma = 0\<close>\<close>

lemma foldl_not_finite_start:
  "\<not> is_finite a \<Longrightarrow> \<not> is_finite (foldl (\<lambda>a m. a + f m) a ms)"
  by (induction ms arbitrary: a) (simp_all add: not_finite_add1)

lemma foldl_not_finite_term:
  "m \<in> set ms \<Longrightarrow> \<not> is_finite (f m) \<Longrightarrow> \<not> is_finite (foldl (\<lambda>a m. a + f m) a ms)"
proof (induction ms arbitrary: a)
  case Nil
  then show ?case by simp
next
  case (Cons x ms)
  show ?case
  proof (cases "m = x")
    case True
    with Cons.prems(2) have "\<not> is_finite (a + f x)"
      by (simp add: not_finite_add2)
    then show ?thesis
      by (simp add: foldl_not_finite_start)
  next
    case False
    with Cons show ?thesis by simp
  qed
qed

lemma redux_not_finite:
  assumes "x \<in> set xs" "\<not> is_finite x"
  shows "\<not> is_finite (redux xs)"
proof (cases xs)
  case Nil
  with assms show ?thesis by simp
next
  case (Cons y ys)
  show ?thesis
  proof (cases "x = y")
    case True
    with assms(2) foldl_not_finite_start [of y "\<lambda>m. m" ys] show ?thesis
      by (simp add: redux_def Cons)
  next
    case False
    with assms Cons have "x \<in> set ys" by simp
    from foldl_not_finite_term [OF this, of "\<lambda>m. m" y] assms(2) show ?thesis
      by (simp add: redux_def Cons)
  qed
qed

lemma foldl_zero_or_nan:
  assumes "is_zero z" "a = z \<or> a = nan" "\<forall>x\<in>set xs. x = z \<or> x = nan"
  shows "foldl (+) a xs = z \<or> foldl (+) a xs = nan"
  using assms(2,3)
proof (induction xs arbitrary: a)
  case Nil
  then show ?case by simp
next
  case (Cons x xs)
  from Cons.prems have "a + x = z \<or> a + x = nan"
    using zero_add_self [OF assms(1)] by (auto simp: nan_add)
  with Cons show ?case by simp
qed

lemma enum_nonempty: "(Enum.enum :: 'n::enum list) \<noteq> []"
  using enum_UNIV [where 'a = 'n] by auto

text \<open>
  With a zero \<open>sigma\<close> the quadratic form is that zero or NaN, and the factor its
  reciprocal: an infinity with the sign of \<open>sigma\<close>, or NaN.
\<close>

lemma zero_sigma_reciprocal:
  assumes "is_zero sigma"
  shows "1 div dot (vec_scale s sigma) s = 1 div sigma \<or> 1 div dot (vec_scale s sigma) s = nan"
proof -
  obtain j js where enum: "(Enum.enum :: 'a list) = j # js"
    using enum_nonempty [where 'n = 'a] by (cases "Enum.enum :: 'a list") auto
  have "dot (vec_scale s sigma) s = sigma \<or> dot (vec_scale s sigma) s = nan"
    unfolding dot_def vec_scale_def redux_def enum list.map list.case
    by (rule foldl_zero_or_nan [OF assms]) (simp_all add: zero_sigma_term [OF assms])
  then show ?thesis
    by (auto simp: one_div_nan)
qed

lemma zero_sigma_weight:
  assumes "is_zero sigma" "0 < i"
  shows "\<not> is_finite (weight sigma t i j k)"
proof -
  have "\<not> is_finite (1 div sigma)"
    using is_zero_cases [OF assms(1)]
    by (auto simp: one_div_zero one_div_neg_zero not_finite_infinity)
  with zero_sigma_reciprocal [OF assms(1), of "states t ! i"]
  have "\<not> is_finite (1 div dot (vec_scale (states t ! i) sigma) (states t ! i))"
    by (auto simp: not_finite_nan)
  with assms(2) show ?thesis
    by (simp add: weight_def mat_scale_def not_finite_mult2)
qed

text \<open>
  C4, as the code has it. \<^verbatim>\<open>episode\<close> has no error to raise: it returns for every
  input. With \<open>sigma\<close> a zero (\<open>+ 0.0\<close> or \<open>- 0.0\<close>) the factor
  \<open>1 / (state\<^sub>i\<^sup>T * sigma * state\<^sub>i)\<close> of a step index \<open>i > 0\<close> is \<open>1 / sigma\<close>, the
  infinity with the sign of \<open>sigma\<close>, or NaN, and an episode that has such a step (more
  than one executed step) returns with no finite entry in \<^verbatim>\<open>weightRewards\<close> and in
  \<^verbatim>\<open>epsilonRewards\<close>.
\<close>

theorem episode_zero_sigma_returns_non_finite:
  assumes "is_zero sigma"
    and "1 < step (run_rollout world continuousNoisePolicy theta episodeLength e)"
  shows "(sigma = 0 \<or> sigma = neg_zero) \<and>
    1 div (0::double) = infinity False \<and> 1 div neg_zero = infinity True \<and>
    (1 div dot (vec_scale s sigma) s = 1 div sigma \<or> 1 div dot (vec_scale s sigma) s = nan) \<and>
    (\<forall>j k. \<not> is_finite (fst (snd (episode world continuousNoisePolicy theta weightRewards
        epsilonRewards sigma episodeLength e)) j k)) \<and>
    (\<forall>j. \<not> is_finite (fst (snd (snd (episode world continuousNoisePolicy theta weightRewards
        epsilonRewards sigma episodeLength e))) j))"
proof -
  let ?t = "run_rollout world continuousNoisePolicy theta episodeLength e"
  let ?agg = "reward_to_go (rewards ?t)"
  have len: "1 < length ?agg"
    using assms(2) by (simp add: length_reward_to_go run_rollout_lengths)
  then have mem: "1 \<in> set [0..<length ?agg]" by simp
  have W: "\<not> is_finite (foldl (\<lambda>a m. a + weight sigma ?t m j k * ?agg ! m) 0 [0..<length ?agg])"
    for j k
    by (rule foldl_not_finite_term [OF mem])
      (simp add: not_finite_mult1 zero_sigma_weight [OF assms(1)])
  have E: "\<not> is_finite
      (foldl (\<lambda>a m. a + mat_vec (weight sigma ?t m) (epsilons ?t ! m) j * ?agg ! m) 0
         [0..<length ?agg])" for j
  proof (rule foldl_not_finite_term [OF mem])
    have "j \<in> set Enum.enum"
      by (simp add: enum_UNIV)
    then have "weight sigma ?t 1 j j * (epsilons ?t ! 1) j
        \<in> set (map (\<lambda>k. weight sigma ?t 1 j k * (epsilons ?t ! 1) k) Enum.enum)"
      by auto
    moreover have "\<not> is_finite (weight sigma ?t 1 j j * (epsilons ?t ! 1) j)"
      by (simp add: not_finite_mult1 zero_sigma_weight [OF assms(1)])
    ultimately have "\<not> is_finite (mat_vec (weight sigma ?t 1) (epsilons ?t ! 1) j)"
      unfolding mat_vec_def by (rule redux_not_finite)
    then show "\<not> is_finite (mat_vec (weight sigma ?t 1) (epsilons ?t ! 1) j * ?agg ! 1)"
      by (rule not_finite_mult1)
  qed
  from W E show ?thesis
    by (simp add: is_zero_cases [OF assms(1)] one_div_zero one_div_neg_zero
        zero_sigma_reciprocal [OF assms(1)] episode_closed_form Let_def)
qed

section \<open>Scenario A: constant reward, three steps, zero noise\<close>












section \<open>Concrete runs\<close>

text \<open>
  The pass on the rewards \<open>- 10\<^sup>1\<^sup>6, 1, 10\<^sup>1\<^sup>6\<close>, and the return of a three-step episode of
  the counting world.
\<close>

theorem reward_to_go_suffix_sums_witness:
  "[double_lit True 0 10000000000000000, 1, double_of_size 10000000000000000] \<noteq> [] \<and>
   length (reward_to_go
     [double_lit True 0 10000000000000000, 1, double_of_size 10000000000000000]) = 3 \<and>
   map Rep_double
     [double_lit True 0 10000000000000000, 1, double_of_size 10000000000000000] =
     [Finite True 1 5000000000000000, Finite False (- 52) 4503599627370496,
      Finite False 1 5000000000000000] \<and>
   map Rep_double (reward_to_go
     [double_lit True 0 10000000000000000, 1, double_of_size 10000000000000000]) =
     [Finite False (- 1074) 0, Finite False 1 5000000000000000,
      Finite False 1 5000000000000000] \<and>
   Rep_double (fst (episode counting_world zero_noise unit_theta TWeight_Zero TParameter_Zero
     half 3 0)) = Finite False (- 51) 6755399441055744"
proof -
  have h: "[double_lit True 0 10000000000000000, 1, double_of_size 10000000000000000] \<noteq> []"
    by simp
  have "length (reward_to_go
      [double_lit True 0 10000000000000000, 1, double_of_size 10000000000000000]) = 3"
    using reward_to_go_suffix_sums [OF h, THEN conjunct1] by simp
  moreover have "map Rep_double
     [double_lit True 0 10000000000000000, 1, double_of_size 10000000000000000] =
     [Finite True 1 5000000000000000, Finite False (- 52) 4503599627370496,
      Finite False 1 5000000000000000]"
    by (simp add: double_eval Let_def)
  moreover have "map Rep_double (reward_to_go
     [double_lit True 0 10000000000000000, 1, double_of_size 10000000000000000]) =
     [Finite False (- 1074) 0, Finite False 1 5000000000000000,
      Finite False 1 5000000000000000]"
    by (simp add: reward_to_go_def double_eval Let_def)
  moreover have "Rep_double (fst (episode counting_world zero_noise unit_theta TWeight_Zero
      TParameter_Zero half 3 0)) = Finite False (- 51) 6755399441055744"
    by (simp add: scenario_eval double_eval)
  ultimately show ?thesis
    using h by blast
qed

text \<open>
  Two episodes of three steps in the counting world, with the noise 0, 1, 2 in the first
  and 3, 4, 5 in the second: the mean return is 3 and the update is
  \<open>(1 / 9) * (43 / 2)\<close> in double arithmetic.
\<close>

theorem episodes_averages_witness:
  "(1::nat) \<le> 2 \<and>
   length (fst (episode_results counting_world counter_noise unit_theta 3 2 0)) = 2 \<and>
   Rep_double (fst (episodes counting_world counter_noise inverse1 unit_theta 2 3 0)) =
     Finite False (- 51) 6755399441055744 \<and>
   Rep_double (fst (snd (episodes counting_world counter_noise inverse1 unit_theta 2 3 0)) ()) =
     Finite False (- 51) 5379299554914759 \<and>
   snd (snd (episodes counting_world counter_noise inverse1 unit_theta 2 3 0)) = 6"
proof -
  have h: "(1::nat) \<le> 2" by simp
  note len = episodes_averages [OF h, of counting_world counter_noise unit_theta 3 0 inverse1,
      THEN conjunct1]
  have "Rep_double (fst (episodes counting_world counter_noise inverse1 unit_theta 2 3 0)) =
     Finite False (- 51) 6755399441055744"
    by (simp add: scenario_eval double_eval)
  moreover have
    "Rep_double (fst (snd (episodes counting_world counter_noise inverse1 unit_theta 2 3 0)) ()) =
     Finite False (- 51) 5379299554914759"
    by (simp add: scenario_eval double_eval)
  moreover have "snd (snd (episodes counting_world counter_noise inverse1 unit_theta 2 3 0)) = 6"
    by (simp add: scenario_eval)
  ultimately show ?thesis
    using h len by blast
qed

text \<open>
  In the counting world the state at step 1 is 1: the weight there is
  \<open>1 * 1 * (1 / (1 * 0.5 * 1)) = 2\<close>.
\<close>

theorem episode_precision_weights_witness:
  "(0::nat) < 1 \<and>
   weight half (run_rollout counting_world zero_noise unit_theta 3 0) 1 () () =
     (states (run_rollout counting_world zero_noise unit_theta 3 0) ! 1) () *
     (states (run_rollout counting_world zero_noise unit_theta 3 0) ! 1) () *
     (1 div redux (map (\<lambda>l. (states (run_rollout counting_world zero_noise unit_theta 3 0) ! 1) l
        * half * (states (run_rollout counting_world zero_noise unit_theta 3 0) ! 1) l)
        Enum.enum)) \<and>
   Rep_double (weight half (run_rollout counting_world zero_noise unit_theta 3 0) 0 () ()) =
     Finite False (- 52) 4503599627370496 \<and>
   Rep_double (weight half (run_rollout counting_world zero_noise unit_theta 3 0) 1 () ()) =
     Finite False (- 51) 4503599627370496"
proof -
  have h: "(0::nat) < 1" by simp
  note w = episode_precision_weights [of half
      "run_rollout counting_world zero_noise unit_theta 3 0" 1 "()" "()"
      counting_world zero_noise unit_theta TWeight_Zero TParameter_Zero 3 0,
      THEN conjunct2, THEN conjunct2, THEN conjunct1, THEN mp, OF h]
  have "Rep_double (weight half (run_rollout counting_world zero_noise unit_theta 3 0) 0 () ()) =
     Finite False (- 52) 4503599627370496"
    by (simp add: scenario_eval double_eval)
  moreover have
    "Rep_double (weight half (run_rollout counting_world zero_noise unit_theta 3 0) 1 () ()) =
     Finite False (- 51) 4503599627370496"
    by (simp add: scenario_eval double_eval)
  ultimately show ?thesis
    using h w by blast
qed

text \<open>
  Two steps in the counting world with \<open>sigma = - 0.0\<close>: the weight sum is the negative
  infinity.
\<close>

theorem episode_zero_sigma_returns_non_finite_witness:
  "is_zero neg_zero \<and>
   1 < step (run_rollout counting_world zero_noise unit_theta 2 0) \<and>
   (\<forall>j k. \<not> is_finite (fst (snd (episode counting_world zero_noise unit_theta TWeight_Zero
      TParameter_Zero neg_zero 2 0)) j k)) \<and>
   (\<forall>j. \<not> is_finite (fst (snd (snd (episode counting_world zero_noise unit_theta TWeight_Zero
      TParameter_Zero neg_zero 2 0))) j)) \<and>
   Rep_double (fst (snd (episode counting_world zero_noise unit_theta TWeight_Zero
      TParameter_Zero neg_zero 2 0)) () ()) = Infinity True"
proof -
  have h1: "is_zero neg_zero"
    by (simp add: double_eval)
  have h2: "1 < step (run_rollout counting_world zero_noise unit_theta 2 0)"
    by (simp add: scenario_eval)
  note t = episode_zero_sigma_returns_non_finite [OF h1 h2, of "\<lambda>j. 1" TWeight_Zero
      TParameter_Zero, THEN conjunct2, THEN conjunct2, THEN conjunct2, THEN conjunct2]
  have "Rep_double (fst (snd (episode counting_world zero_noise unit_theta TWeight_Zero
      TParameter_Zero neg_zero 2 0)) () ()) = Infinity True"
    by (simp add: scenario_eval double_eval)
  then show ?thesis
    using h1 h2 t by blast
qed

text \<open>
  The same with \<open>sigma = + 0.0\<close>: \<^verbatim>\<open>episode\<close> returns the reward 2, the weight sum
  \<open>+\<infinity>\<close> and the noise-weighted sum NaN; nothing is raised.
\<close>

theorem episode_zero_sigma_counterexample:
  "Rep_double (fst (episode counting_world zero_noise unit_theta TWeight_Zero TParameter_Zero
      0 2 0)) = Finite False (- 51) 4503599627370496 \<and>
   Rep_double (fst (snd (episode counting_world zero_noise unit_theta TWeight_Zero
      TParameter_Zero 0 2 0)) () ()) = Infinity False \<and>
   Rep_double (fst (snd (snd (episode counting_world zero_noise unit_theta TWeight_Zero
      TParameter_Zero 0 2 0))) ()) = NaN"
  by (simp add: scenario_eval double_eval)



text \<open>
  A state need not be zero for that: at the state two to the power - 538 both products underflow to
  zero, the weight is \<open>0 * (1 / 0)\<close> again, and the update is NaN.
\<close>

lemma tiny_state_update_nan:
  "Rep_double ((states (run_rollout tiny_world zero_noise unit_theta 3 0) ! 1) ()) =
     Finite False (- 590) 4503599627370496 \<and>
   Rep_double (weight half (run_rollout tiny_world zero_noise unit_theta 3 0) 1 () ()) = NaN \<and>
   Rep_double (fst (snd (episodes tiny_world zero_noise inverse1 unit_theta 1 3 0)) ()) = NaN"
  by (simp add: tiny_world_def scenario_eval double_eval)

text \<open>
  The claim's own words fail on doubles. The first reward sequence is
  \<open>- 10\<^sup>1\<^sup>6, 1, 10\<^sup>1\<^sup>6\<close>: the pass adds \<open>10\<^sup>1\<^sup>6 + 1\<close>, which rounds to \<open>10\<^sup>1\<^sup>6\<close>, and returns
  \<open>+ 0.0\<close>, although the first and the last reward cancel exactly and the rewards add up
  to 1. The second is \<open>1, 10\<^sup>1\<^sup>6, - 10\<^sup>1\<^sup>6\<close>: the pass returns 1, the sum taken from the
  first reward to the last is \<open>+ 0.0\<close>. The third is a single \<open>- 0.0\<close>, which the pass
  replaces by \<open>+ 0.0\<close>.
\<close>

theorem reward_to_go_suffix_sums_counterexample:
  "Rep_double (reward_to_go
      [double_lit True 0 10000000000000000, 1, double_of_size 10000000000000000] ! 0) =
     Finite False (- 1074) 0 \<and>
   Rep_double (double_lit True 0 10000000000000000 + double_of_size 10000000000000000 + 1) =
     Finite False (- 52) 4503599627370496 \<and>
   Rep_double (reward_to_go
      [1, double_of_size 10000000000000000, double_lit True 0 10000000000000000] ! 0) =
     Finite False (- 52) 4503599627370496 \<and>
   Rep_double (foldl (+) 0
      [1, double_of_size 10000000000000000, double_lit True 0 10000000000000000]) =
     Finite False (- 1074) 0 \<and>
   Rep_double (reward_to_go [neg_zero] ! 0) = Finite False (- 1074) 0 \<and>
   Rep_double ([neg_zero] ! 0) = Finite True (- 1074) 0"
  by (simp add: reward_to_go_def double_eval Let_def)

text \<open>
  With \<^verbatim>\<open>episodeLength = 0\<close> in the counting world: one step is executed, one state, one
  noise sample and one reward are recorded.
\<close>

theorem episode_zero_limit_counterexample:
  "step (run_rollout counting_world zero_noise unit_theta 0 0) = 1 \<and>
   length (states (run_rollout counting_world zero_noise unit_theta 0 0)) = 1 \<and>
   length (epsilons (run_rollout counting_world zero_noise unit_theta 0 0)) = 1 \<and>
   length (rewards (run_rollout counting_world zero_noise unit_theta 0 0)) = 1 \<and>
   \<not> length (states (run_rollout counting_world zero_noise unit_theta 0 0)) \<le> 0"
  by (simp add: scenario_eval)

end
